theory Spec2Isabelle
  imports Main
begin

section \<open>Candidates (the catalog's PhotoInfo objects)\<close>

text \<open>
  The fields of an osxphotos PhotoInfo object that the pipeline reads. Optional fields
  of the source are options here; sizes are Python ints.
\<close>

datatype tz = UTC | FixedOffset int

record datetime =
  year :: nat
  month :: nat
  day :: nat
  hour :: nat
  minute :: nat
  second :: nat
  tzinfo :: "tz option"

record photo =
  uuid :: string
  original_filename :: "string option"
  path :: "string option"
  original_filesize :: "int option"
  isphoto :: bool
  date :: "datetime option"
  date_modified :: "datetime option"

section \<open>Classifier (utils/exif_utils.py)\<close>

text \<open>\<open>str.lower\<close> on the ASCII letters; every other byte is left as it is.\<close>

definition lower_char :: "char \<Rightarrow> char" where
  "lower_char c =
     (case map_of (zip ''ABCDEFGHIJKLMNOPQRSTUVWXYZ'' ''abcdefghijklmnopqrstuvwxyz'') c of
        Some l \<Rightarrow> l
      | None \<Rightarrow> c)"

definition lower :: "string \<Rightarrow> string" where
  "lower s = map lower_char s"

text \<open>\<open>filename.rsplit(".", 1)[-1]\<close>: what follows the last dot.\<close>

definition rsplit_last :: "string \<Rightarrow> string" where
  "rsplit_last s = rev (takeWhile (\<lambda>c. c \<noteq> CHR ''.'') (rev s))"

definition get_extension :: "string \<Rightarrow> string" where
  "get_extension filename =
     (if CHR ''.'' \<in> set filename then ''.'' @ lower (rsplit_last filename) else '''')"

definition PHOTO_EXTENSIONS :: "string list" where
  "PHOTO_EXTENSIONS =
     [''.jpg'', ''.jpeg'', ''.png'', ''.gif'', ''.webp'', ''.heic'', ''.heif'', ''.tiff'',
      ''.tif'', ''.bmp'', ''.raw'', ''.dng'', ''.cr2'', ''.nef'', ''.arw'']"

definition VIDEO_EXTENSIONS :: "string list" where
  "VIDEO_EXTENSIONS = [''.mp4'', ''.mov'', ''.avi'', ''.mkv'', ''.webm'', ''.m4v'', ''.3gp'']"

definition SKIP_EXTENSIONS :: "string list" where
  "SKIP_EXTENSIONS = [''.thm'', ''.scr'', ''.lrf'']"

definition get_media_type :: "string \<Rightarrow> string option" where
  "get_media_type filename =
     (let ext = get_extension filename in
      if ext \<in> set SKIP_EXTENSIONS then None
      else if ext \<in> set PHOTO_EXTENSIONS then Some ''photo''
      else if ext \<in> set VIDEO_EXTENSIONS then Some ''video''
      else None)"

definition should_skip_file :: "string \<Rightarrow> bool" where
  "should_skip_file filename = (get_extension filename \<in> set SKIP_EXTENSIONS)"

text \<open>
  The spec's wording of a junk filename, independent of \<open>get_extension\<close>: the name ends,
  case-insensitively, in one of \<open>.thm\<close>, \<open>.scr\<close>, \<open>.lrf\<close>.
\<close>

definition ends_with_junk_extension :: "string \<Rightarrow> bool" where
  "ends_with_junk_extension filename =
     (4 \<le> length filename \<and>
      lower (drop (length filename - 4) filename) \<in> {''.thm'', ''.scr'', ''.lrf''})"

section \<open>Batch planner (drain_icloud.py)\<close>

text \<open>
  \<open>photo.path and Path(photo.path).exists()\<close>: the path is present, not the empty string,
  and names something on disk. The file system is read through the predicate \<open>ex\<close>.
\<close>

definition is_local :: "(string \<Rightarrow> bool) \<Rightarrow> photo \<Rightarrow> bool" where
  "is_local ex p = (case path p of None \<Rightarrow> False | Some q \<Rightarrow> q \<noteq> [] \<and> ex q)"

text \<open>\<open>photo.original_filename and should_skip_file(photo.original_filename)\<close>.\<close>

definition is_junk :: "photo \<Rightarrow> bool" where
  "is_junk p =
     (case original_filename p of None \<Rightarrow> False | Some f \<Rightarrow> f \<noteq> [] \<and> should_skip_file f)"

text \<open>
  The loop of \<open>get_photos_to_import\<close> with its two accumulators; \<open>all_photos\<close> is what
  \<open>photosdb.photos()\<close> returned.
\<close>

fun plan_loop ::
  "(string \<Rightarrow> bool) \<Rightarrow> string set \<Rightarrow> bool \<Rightarrow> photo list \<Rightarrow> photo list \<Rightarrow> photo list
     \<Rightarrow> photo list \<times> photo list" where
  "plan_loop ex imported_uuids local_only [] local_photos cloud_photos =
     (local_photos, cloud_photos)"
| "plan_loop ex imported_uuids local_only (p # ps) local_photos cloud_photos =
     (if uuid p \<in> imported_uuids then
        plan_loop ex imported_uuids local_only ps local_photos cloud_photos
      else if is_junk p then
        plan_loop ex imported_uuids local_only ps local_photos cloud_photos
      else if is_local ex p then
        plan_loop ex imported_uuids local_only ps (local_photos @ [p]) cloud_photos
      else if \<not> local_only then
        plan_loop ex imported_uuids local_only ps local_photos (cloud_photos @ [p])
      else
        plan_loop ex imported_uuids local_only ps local_photos cloud_photos)"

definition get_photos_to_import ::
  "(string \<Rightarrow> bool) \<Rightarrow> photo list \<Rightarrow> string set \<Rightarrow> bool \<Rightarrow> photo list" where
  "get_photos_to_import ex all_photos imported_uuids local_only =
     (case plan_loop ex imported_uuids local_only all_photos [] [] of
        (local_photos, cloud_photos) \<Rightarrow> local_photos @ cloud_photos)"

text \<open>
  The size \<open>build_batch\<close> charges for a photo: \<open>photo.original_filesize or 0\<close>, replaced
  by the per-kind estimate when that is zero.
\<close>

definition declared_size :: "photo \<Rightarrow> int" where
  "declared_size p =
     (let file_size = (case original_filesize p of None \<Rightarrow> 0 | Some n \<Rightarrow> n) in
      if file_size = 0 then (if isphoto p then 5 * 1024 * 1024 else 100 * 1024 * 1024)
      else file_size)"

text \<open>
  The loop of \<open>build_batch\<close>: \<open>batch\<close> and \<open>batch_size\<close> are its two variables, each
  \<open>break\<close> returns the batch built so far. \<open>max_items\<close> is a Python int, so it may be
  negative; \<open>if max_items\<close> tests it against zero only.
\<close>

fun build_batch_loop :: "photo list \<Rightarrow> int \<Rightarrow> int \<Rightarrow> photo list \<Rightarrow> int \<Rightarrow> photo list" where
  "build_batch_loop [] max_bytes max_items batch batch_size = batch"
| "build_batch_loop (p # ps) max_bytes max_items batch batch_size =
     (if max_items \<noteq> 0 \<and> int (length batch) \<ge> max_items then batch
      else
        let file_size = declared_size p in
        if batch_size + file_size > max_bytes \<and> batch \<noteq> [] then batch
        else build_batch_loop ps max_bytes max_items (batch @ [p]) (batch_size + file_size))"

definition build_batch :: "photo list \<Rightarrow> int \<Rightarrow> int \<Rightarrow> photo list" where
  "build_batch photos max_bytes max_items = build_batch_loop photos max_bytes max_items [] 0"

section \<open>Ledger (utils/tracker.py)\<close>

text \<open>
  One row of the table \<open>imported_assets\<close>. The table is the list of its rows; its column
  \<open>icloud_uuid\<close> is the primary key.
\<close>

record imported_asset =
  icloud_uuid :: string
  immich_id :: "string option"
  filename :: string
  file_size :: int
  media_type :: string
  imported_at :: datetime

text \<open>\<open>SELECT 1 FROM imported_assets WHERE icloud_uuid = ?\<close>, then \<open>fetchone() is not None\<close>.\<close>

definition is_imported :: "imported_asset list \<Rightarrow> string \<Rightarrow> bool" where
  "is_imported rows u = (filter (\<lambda>r. icloud_uuid r = u) rows \<noteq> [])"

definition get_imported_uuids :: "imported_asset list \<Rightarrow> string set" where
  "get_imported_uuids rows = set (map icloud_uuid rows)"

text \<open>
  \<open>INSERT OR REPLACE\<close>: SQLite deletes the rows that conflict on the primary key and
  then inserts the new row. \<open>ts\<close> is what \<open>datetime.now()\<close> returned.
\<close>

definition mark_imported ::
  "imported_asset list \<Rightarrow> string \<Rightarrow> string option \<Rightarrow> string \<Rightarrow> int \<Rightarrow> string \<Rightarrow> datetime
     \<Rightarrow> imported_asset list" where
  "mark_imported rows u iid fname fsize mtype ts =
     filter (\<lambda>r. icloud_uuid r \<noteq> u) rows @
     [\<lparr>icloud_uuid = u, immich_id = iid, filename = fname, file_size = fsize,
       media_type = mtype, imported_at = ts\<rparr>]"

section \<open>Text of numbers and dates\<close>

definition digit_char :: "nat \<Rightarrow> char" where
  "digit_char n = ''0123456789'' ! n"

function str_nat :: "nat \<Rightarrow> string" where
  "str_nat n = (if n < 10 then [digit_char n] else str_nat (n div 10) @ [digit_char (n mod 10)])"
  by pat_completeness auto
termination
  by (relation "measure id") auto

declare str_nat.simps [simp del]

definition str_int :: "int \<Rightarrow> string" where
  "str_int i = (if i < 0 then CHR ''-'' # str_nat (nat (- i)) else str_nat (nat i))"

definition zpad :: "nat \<Rightarrow> nat \<Rightarrow> string" where
  "zpad w n = replicate (w - length (str_nat n)) CHR ''0'' @ str_nat n"

text \<open>
  \<open>strftime\<close> for the directives the pipeline uses, zero-padded as the C library of
  macOS (the platform of Photos.app) prints them. Anything else in the format is copied.
\<close>

definition directive :: "datetime \<Rightarrow> char \<Rightarrow> string" where
  "directive dt c =
     (if c = CHR ''Y'' then zpad 4 (year dt)
      else if c = CHR ''m'' then zpad 2 (month dt)
      else if c = CHR ''d'' then zpad 2 (day dt)
      else if c = CHR ''H'' then zpad 2 (hour dt)
      else if c = CHR ''M'' then zpad 2 (minute dt)
      else if c = CHR ''S'' then zpad 2 (second dt)
      else [CHR ''%'', c])"

fun strftime :: "datetime \<Rightarrow> string \<Rightarrow> string" where
  "strftime dt [] = []"
| "strftime dt [c] = [c]"
| "strftime dt (c # d # rest) =
     (if c = CHR ''%'' then directive dt d @ strftime dt rest else c # strftime dt (d # rest))"

definition ISO_FORMAT :: string where
  "ISO_FORMAT = ''%Y-%m-%dT%H:%M:%S.000Z''"

text \<open>The nested function \<open>format_date\<close> of \<open>process_batch\<close>.\<close>

definition format_date :: "datetime option \<Rightarrow> string option" where
  "format_date dt =
     (case dt of
        None \<Rightarrow> None
      | Some d \<Rightarrow>
          let d' = (if tzinfo d = None then d\<lparr>tzinfo := Some UTC\<rparr> else d)
          in Some (strftime d' ISO_FORMAT))"

text \<open>
  The spec's wording of the timestamp format: four digits, two, two, \<open>T\<close>, two, two, two
  and the fixed tail \<open>.000Z\<close>.
\<close>

definition is_digit :: "char \<Rightarrow> bool" where
  "is_digit c = (c \<in> set ''0123456789'')"

definition is_iso_timestamp :: "string \<Rightarrow> bool" where
  "is_iso_timestamp s =
     (length s = 24 \<and>
      list_all is_digit (take 4 s) \<and> s ! 4 = CHR ''-'' \<and>
      list_all is_digit (take 2 (drop 5 s)) \<and> s ! 7 = CHR ''-'' \<and>
      list_all is_digit (take 2 (drop 8 s)) \<and> s ! 10 = CHR ''T'' \<and>
      list_all is_digit (take 2 (drop 11 s)) \<and> s ! 13 = CHR '':'' \<and>
      list_all is_digit (take 2 (drop 14 s)) \<and> s ! 16 = CHR '':'' \<and>
      list_all is_digit (take 2 (drop 17 s)) \<and> drop 19 s = ''.000Z'')"

text \<open>What Python guarantees of every \<open>datetime\<close> object.\<close>

definition valid_datetime :: "datetime \<Rightarrow> bool" where
  "valid_datetime d =
     (1 \<le> year d \<and> year d \<le> 9999 \<and> 1 \<le> month d \<and> month d \<le> 12 \<and> 1 \<le> day d \<and> day d \<le> 31 \<and>
      hour d < 24 \<and> minute d < 60 \<and> second d < 60)"

section \<open>The world outside the process\<close>

text \<open>
  An entry of the staging directory, with the fields of its \<open>stat()\<close> that are read.
  The directory is the list of its entries in the order \<open>iterdir()\<close> yields them.
\<close>

record sfile =
  spath :: string
  is_file :: bool
  st_size :: int
  st_birthtime :: int
  st_mtime :: int

text \<open>The multipart request of \<open>upload_asset\<close>: the file sent and the form fields.\<close>

record upload_request =
  req_file :: string
  req_data :: "(string \<times> string) list"

text \<open>
  What the body of a response gives to \<open>response.json()\<close> followed by \<open>result.get\<close>:
  either an exception (of class \<open>requests.RequestException\<close> or not), or the two
  fields read from the decoded object, each absent when its key is.
\<close>

datatype json_result =
    JsonRequestException string
  | JsonException string
  | JsonDict "string option" "bool option"

datatype post_outcome =
    PostRequestException string
  | PostException string
  | PostResponse int string json_result

datatype export_result = ExportReturned "string list" | ExportRaised string

datatype cli_result = CliCompleted int string | CliTimeout | CliRaised string

text \<open>
  The collaborators, as functions of what the code passes to them:
  \<open>photo.export\<close> and the \<open>osxphotos export\<close> subprocess both return their result and
  the new content of the staging directory.
\<close>

record env =
  path_exists :: "string \<Rightarrow> bool"
  photo_export :: "photo \<Rightarrow> sfile list \<Rightarrow> export_result \<times> sfile list"
  run_cli :: "string \<Rightarrow> sfile list \<Rightarrow> cli_result \<times> sfile list"
  open_error :: "string \<Rightarrow> string option"
  post :: "upload_request \<Rightarrow> post_outcome"
  unlink_error :: "string \<Rightarrow> string option"
  fromtimestamp :: "int \<Rightarrow> datetime"
  now :: datetime

text \<open>Calls that leave the process, in the order they are made.\<close>

datatype event =
    EvPhotoExport string
  | EvCliExport string
  | EvSleep nat
  | EvPost upload_request

record state =
  staging_dir :: "sfile list"
  tracker_db :: "imported_asset list"
  events :: "event list"

section \<open>Remote upload client (utils/immich_client.py)\<close>

record upload_result =
  success :: bool
  asset_id :: "string option"
  duplicate :: bool
  error :: "string option"

definition upload_failed :: "string \<Rightarrow> upload_result" where
  "upload_failed e = \<lparr>success = False, asset_id = None, duplicate = False, error = Some e\<rparr>"

definition upload_ok :: "string option \<Rightarrow> bool \<Rightarrow> upload_result" where
  "upload_ok i d = \<lparr>success = True, asset_id = i, duplicate = d, error = None\<rparr>"

definition stat :: "sfile list \<Rightarrow> string \<Rightarrow> sfile option" where
  "stat files fp = find (\<lambda>f. spath f = fp) files"

text \<open>The dict \<open>data\<close>: a timestamp is a field only when it is a non-empty string.\<close>

definition form_data ::
  "string \<Rightarrow> string \<Rightarrow> string option \<Rightarrow> string option \<Rightarrow> (string \<times> string) list" where
  "form_data device_asset_id device_id file_created_at file_modified_at =
     [(''deviceAssetId'', device_asset_id), (''deviceId'', device_id)] @
     (case file_created_at of
        None \<Rightarrow> []
      | Some c \<Rightarrow> if c \<noteq> [] then [(''fileCreatedAt'', c)] else []) @
     (case file_modified_at of
        None \<Rightarrow> []
      | Some m \<Rightarrow> if m \<noteq> [] then [(''fileModifiedAt'', m)] else [])"

text \<open>
  The handling of the response, and of the two \<open>except\<close> clauses around it. The MIME type
  is part of the file field and is not modelled.
\<close>

definition handle_response :: "post_outcome \<Rightarrow> upload_result" where
  "handle_response r =
     (case r of
        PostRequestException e \<Rightarrow> upload_failed (''Request error: '' @ e)
      | PostException e \<Rightarrow> upload_failed (''Unexpected error: '' @ e)
      | PostResponse status_code body js \<Rightarrow>
          if status_code = 201 then
            (case js of
               JsonRequestException e \<Rightarrow> upload_failed (''Request error: '' @ e)
             | JsonException e \<Rightarrow> upload_failed (''Unexpected error: '' @ e)
             | JsonDict i d \<Rightarrow> upload_ok i (case d of None \<Rightarrow> False | Some b \<Rightarrow> b))
          else if status_code = 200 then
            (case js of
               JsonRequestException e \<Rightarrow> upload_failed (''Request error: '' @ e)
             | JsonException e \<Rightarrow> upload_failed (''Unexpected error: '' @ e)
             | JsonDict i d \<Rightarrow> upload_ok i True)
          else upload_failed (''Upload failed: '' @ str_int status_code @ '' - '' @ body))"

definition upload_asset ::
  "env \<Rightarrow> string \<Rightarrow> string \<Rightarrow> string \<Rightarrow> string option \<Rightarrow> string option \<Rightarrow> state
     \<Rightarrow> upload_result \<times> state" where
  "upload_asset env file_path device_asset_id device_id file_created_at file_modified_at st =
     (if stat (staging_dir st) file_path = None then
        (upload_failed (''File not found: '' @ file_path), st)
      else
        case open_error env file_path of
          Some e \<Rightarrow> (upload_failed (''Unexpected error: '' @ e), st)
        | None \<Rightarrow>
            let req = \<lparr>req_file = file_path,
                       req_data = form_data device_asset_id device_id file_created_at
                                    file_modified_at\<rparr>
            in (handle_response (post env req), st\<lparr>events := events st @ [EvPost req]\<rparr>))"

section \<open>Export stage (drain_icloud.py)\<close>

definition export_photo :: "env \<Rightarrow> photo \<Rightarrow> state \<Rightarrow> string option \<times> state" where
  "export_photo env ph st =
     (if is_local (path_exists env) ph then
        (case photo_export env ph (staging_dir st) of
           (res, files) \<Rightarrow>
             (let st' = st\<lparr>staging_dir := files, events := events st @ [EvPhotoExport (uuid ph)]\<rparr>
              in (case res of
                    ExportRaised e \<Rightarrow> (None, st')
                  | ExportReturned exported_files \<Rightarrow>
                      (case exported_files of [] \<Rightarrow> (None, st') | f # _ \<Rightarrow> (Some f, st')))))
      else
        (case run_cli env (uuid ph) (staging_dir st) of
           (res, files) \<Rightarrow>
             (let st' = st\<lparr>staging_dir := files, events := events st @ [EvCliExport (uuid ph)]\<rparr>
              in (case res of
                    CliTimeout \<Rightarrow> (None, st')
                  | CliRaised e \<Rightarrow> (None, st')
                  | CliCompleted returncode err \<Rightarrow>
                      (if returncode = 0 then
                         (case filter is_file files of
                            [] \<Rightarrow> (None, st')
                          | f # _ \<Rightarrow> (Some (spath f), st'))
                       else (None, st'))))))"

section \<open>Pipeline orchestrator (drain_icloud.py)\<close>

record stats =
  exported :: int
  uploaded :: int
  duplicates :: int
  failed :: int
  skipped :: int

definition zero_stats :: stats where
  "zero_stats = \<lparr>exported = 0, uploaded = 0, duplicates = 0, failed = 0, skipped = 0\<rparr>"

text \<open>\<open>exported_path.stat()\<close> raises when the path names nothing; nothing catches it.\<close>

datatype crash = FileNotFoundError string

text \<open>\<open>exported_path.unlink()\<close> inside its \<open>try\<close>: an entry goes when the call succeeds.\<close>

definition unlink :: "env \<Rightarrow> string \<Rightarrow> sfile list \<Rightarrow> sfile list" where
  "unlink env fp files =
     filter (\<lambda>f. \<not> (spath f = fp \<and> is_file f \<and> unlink_error env fp = None)) files"

text \<open>Lines 250 to 257: the two timestamps handed to \<open>upload_asset\<close>.\<close>

definition upload_timestamps :: "env \<Rightarrow> photo \<Rightarrow> sfile \<Rightarrow> string option \<times> string option" where
  "upload_timestamps env ph file_stat =
     (let created_at = format_date (date ph);
          modified_at = format_date (date_modified ph);
          created_at =
            (if created_at = None \<or> created_at = Some [] then
               Some (strftime (fromtimestamp env (st_birthtime file_stat)) ISO_FORMAT)
             else created_at);
          modified_at =
            (if modified_at = None \<or> modified_at = Some [] then
               Some (strftime (fromtimestamp env (st_mtime file_stat)) ISO_FORMAT)
             else modified_at)
      in (created_at, modified_at))"

text \<open>
  One turn of the loop of \<open>process_batch\<close>, for the \<open>i\<close>-th of \<open>n\<close> photos; lines 268
  to 286, the bookkeeping after the upload, are \<open>record_outcome\<close>. Logging is left out.
\<close>

definition record_outcome ::
  "env \<Rightarrow> photo \<Rightarrow> string \<Rightarrow> string \<Rightarrow> int \<Rightarrow> upload_result \<Rightarrow> stats \<Rightarrow> state \<Rightarrow> stats \<times> state" where
  "record_outcome env ph fname mtype fsize result sts st =
     (if success result then
        (if duplicate result then sts\<lparr>duplicates := duplicates sts + 1\<rparr>
         else sts\<lparr>uploaded := uploaded sts + 1\<rparr>,
         st\<lparr>tracker_db :=
              mark_imported (tracker_db st) (uuid ph) (asset_id result) fname fsize mtype
                (now env)\<rparr>)
      else (sts\<lparr>failed := failed sts + 1\<rparr>, st))"

definition process_item ::
  "env \<Rightarrow> bool \<Rightarrow> nat \<Rightarrow> nat \<Rightarrow> photo \<Rightarrow> stats \<Rightarrow> state \<Rightarrow> crash + (stats \<times> state)" where
  "process_item env dry n i ph sts st =
     (let fname = (case original_filename ph of
                     None \<Rightarrow> ''unknown_'' @ uuid ph
                   | Some f \<Rightarrow> (if f \<noteq> [] then f else ''unknown_'' @ uuid ph));
          mtype = (case get_media_type fname of
                     Some m \<Rightarrow> m
                   | None \<Rightarrow> (if isphoto ph then ''photo'' else ''video''));
          is_cloud = (\<not> is_local (path_exists env) ph)
      in
      (if dry then Inr (sts\<lparr>skipped := skipped sts + 1\<rparr>, st)
       else
         (case export_photo env ph st of
            (exported_path, st1) \<Rightarrow>
              (let st2 = (if is_cloud \<and> exported_path \<noteq> None \<and> i < n
                          then st1\<lparr>events := events st1 @ [EvSleep 30]\<rparr> else st1)
               in (case exported_path of
                     None \<Rightarrow> Inr (sts\<lparr>failed := failed sts + 1\<rparr>, st2)
                   | Some ep \<Rightarrow>
                       (let sts1 = sts\<lparr>exported := exported sts + 1\<rparr>
                        in (case stat (staging_dir st2) ep of
                              None \<Rightarrow> Inl (FileNotFoundError ep)
                            | Some file_stat \<Rightarrow>
                                (case upload_timestamps env ph file_stat of
                                   (created_at, modified_at) \<Rightarrow>
                                     (case upload_asset env ep (uuid ph) ''dam-icloud-drain''
                                             created_at modified_at st2 of
                                        (result, st3) \<Rightarrow>
                                          (case record_outcome env ph fname mtype
                                                  (st_size file_stat) result sts1 st3 of
                                             (sts2, st4) \<Rightarrow>
                                               Inr (sts2,
                                                    st4\<lparr>staging_dir :=
                                                          unlink env ep (staging_dir st4)\<rparr>)))))))))))"

fun process_batch_loop ::
  "env \<Rightarrow> bool \<Rightarrow> nat \<Rightarrow> nat \<Rightarrow> photo list \<Rightarrow> stats \<Rightarrow> state \<Rightarrow> crash + (stats \<times> state)" where
  "process_batch_loop env dry n i [] sts st = Inr (sts, st)"
| "process_batch_loop env dry n i (ph # rest) sts st =
     (case process_item env dry n i ph sts st of
        Inl e \<Rightarrow> Inl e
      | Inr (sts', st') \<Rightarrow> process_batch_loop env dry n (Suc i) rest sts' st')"

definition process_batch :: "env \<Rightarrow> photo list \<Rightarrow> bool \<Rightarrow> state \<Rightarrow> crash + (stats \<times> state)" where
  "process_batch env batch dry st = process_batch_loop env dry (length batch) 1 batch zero_stats st"

text \<open>The sweep at the end of a batch: \<open>unlink\<close> on every entry, errors swallowed.\<close>

definition sweep :: "env \<Rightarrow> sfile list \<Rightarrow> sfile list" where
  "sweep env files = filter (\<lambda>f. \<not> (is_file f \<and> unlink_error env (spath f) = None)) files"

definition add_stats :: "stats \<Rightarrow> stats \<Rightarrow> stats" where
  "add_stats a b =
     \<lparr>exported = exported a + exported b, uploaded = uploaded a + uploaded b,
      duplicates = duplicates a + duplicates b, failed = failed a + failed b,
      skipped = skipped a + skipped b\<rparr>"

record run_args =
  arg_dry_run :: bool
  batch_size_bytes :: int
  arg_max_batches :: int
  arg_local_only :: bool
  arg_max_items :: int

section \<open>A batch is a prefix of the worklist\<close>

lemma bb_prefix:
  "\<exists>k. build_batch_loop ps mb mi batch bs = batch @ take k ps"
proof (induction ps arbitrary: batch bs)
  case Nil
  then show ?case by simp
next
  case (Cons p ps)
  show ?case
  proof (cases "build_batch_loop (p # ps) mb mi batch bs = batch")
    case True
    then have "build_batch_loop (p # ps) mb mi batch bs = batch @ take 0 (p # ps)" by simp
    then show ?thesis by blast
  next
    case False
    then have "build_batch_loop (p # ps) mb mi batch bs
        = build_batch_loop ps mb mi (batch @ [p]) (bs + declared_size p)"
      by (auto simp add: Let_def split: if_splits)
    moreover from Cons.IH obtain k where
      "build_batch_loop ps mb mi (batch @ [p]) (bs + declared_size p) = (batch @ [p]) @ take k ps"
      by blast
    ultimately have "build_batch_loop (p # ps) mb mi batch bs = batch @ take (Suc k) (p # ps)"
      by simp
    then show ?thesis by blast
  qed
qed

lemma build_batch_take: "\<exists>k. build_batch photos mb mi = take k photos"
  using bb_prefix[of photos mb mi "[]" 0] by (simp add: build_batch_def)

lemma build_batch_subset: "set (build_batch photos mb mi) \<subseteq> set photos"
proof -
  obtain k where "build_batch photos mb mi = take k photos" using build_batch_take by blast
  then show ?thesis by (simp add: set_take_subset)
qed

lemma remove_batch_shrinks:
  assumes "batch \<noteq> []" and "set batch \<subseteq> set to_import"
  shows "length (filter (\<lambda>p. uuid p \<notin> set (map uuid batch)) to_import) < length to_import"
proof -
  from assms(1) obtain x where x: "x \<in> set batch" by (cases batch) auto
  with assms(2) have "x \<in> set to_import" by blast
  moreover from x have "\<not> uuid x \<notin> set (map uuid batch)" by simp
  ultimately show ?thesis by (rule length_filter_less)
qed

section \<open>The batching loop of \<open>main\<close>\<close>

text \<open>
  The \<open>while to_import\<close> loop, lines 429 to 472, with its variables \<open>to_import\<close>,
  \<open>batch_num\<close> and \<open>total_stats\<close>; it returns their values when the loop is left. Each
  turn removes the batch from the worklist by identifier, so the worklist shrinks: that is
  the termination argument.
\<close>

function main_loop ::
  "env \<Rightarrow> run_args \<Rightarrow> photo list \<Rightarrow> int \<Rightarrow> stats \<Rightarrow> state \<Rightarrow> crash + (int \<times> stats \<times> state)" where
  "main_loop env args to_import batch_num total_stats st =
     (if to_import = [] then Inr (batch_num, total_stats, st)
      else if arg_max_batches args \<noteq> 0 \<and> batch_num + 1 > arg_max_batches args
      then Inr (batch_num + 1, total_stats, st)
      else
        (let batch = build_batch to_import (batch_size_bytes args) (arg_max_items args) in
         if batch = [] then Inr (batch_num + 1, total_stats, st)
         else
           (case process_batch env batch (arg_dry_run args) st of
              Inl e \<Rightarrow> Inl e
            | Inr (batch_stats, st') \<Rightarrow>
                main_loop env args
                  (filter (\<lambda>p. uuid p \<notin> set (map uuid batch)) to_import)
                  (batch_num + 1)
                  (add_stats total_stats batch_stats)
                  (if \<not> arg_dry_run args
                   then st'\<lparr>staging_dir := sweep env (staging_dir st')\<rparr> else st'))))"
  by pat_completeness auto
termination
proof (relation "measure (\<lambda>(env, args, to_import, batch_num, total_stats, st). length to_import)",
    goal_cases)
  case 1
  show ?case by simp
next
  case (2 env args to_import batch_num total_stats st batch b batch_stats st')
  then have "length (filter (\<lambda>p. uuid p \<notin> set (map uuid batch)) to_import) < length to_import"
    by (intro remove_batch_shrinks) (auto simp: build_batch_subset)
  then show ?case by simp
qed

declare main_loop.simps [simp del]

text \<open>
  \<open>main\<close> from line 405 on, after the destination answered the ping and the library
  opened: read the Ledger, plan, run the loop.
\<close>

definition run ::
  "env \<Rightarrow> run_args \<Rightarrow> photo list \<Rightarrow> state \<Rightarrow> crash + (int \<times> stats \<times> state)" where
  "run env args all_photos st =
     (let imported_uuids = get_imported_uuids (tracker_db st);
          to_import = get_photos_to_import (path_exists env) all_photos imported_uuids
                        (arg_local_only args)
      in if to_import = [] then Inr (0, zero_stats, st)
         else main_loop env args to_import 0 zero_stats st)"

section \<open>A small catalog and a world for it\<close>

text \<open>
  The catalog of the specification's scenario: \<open>A\<close> is local and 2 GiB, \<open>B\<close> is a video in
  iCloud of unknown size, \<open>C\<close> is local; \<open>J\<close> is a camera thumbnail.
\<close>

definition sample_date :: datetime where
  "sample_date = \<lparr>year = 2021, month = 3, day = 9, hour = 14, minute = 5, second = 7,
                   tzinfo = None\<rparr>"

definition photo_A :: photo where
  "photo_A = \<lparr>uuid = ''A'', original_filename = Some ''IMG_0001.HEIC'',
               path = Some ''/lib/IMG_0001.HEIC'', original_filesize = Some 2147483648,
               isphoto = True, date = Some sample_date, date_modified = None\<rparr>"

definition photo_B :: photo where
  "photo_B = \<lparr>uuid = ''B'', original_filename = Some ''MOV_0002.MOV'', path = None,
               original_filesize = None, isphoto = False, date = None, date_modified = None\<rparr>"

definition photo_C :: photo where
  "photo_C = \<lparr>uuid = ''C'', original_filename = Some ''IMG_0003.JPG'',
               path = Some ''/lib/IMG_0003.JPG'', original_filesize = Some 1000,
               isphoto = True, date = Some sample_date, date_modified = Some sample_date\<rparr>"

definition photo_J :: photo where
  "photo_J = \<lparr>uuid = ''J'', original_filename = Some ''IMG_0001.THM'',
               path = Some ''/lib/IMG_0001.THM'', original_filesize = Some 2000,
               isphoto = True, date = None, date_modified = None\<rparr>"

definition on_disk :: "string \<Rightarrow> bool" where
  "on_disk q = (q \<in> set [''/lib/IMG_0001.HEIC'', ''/lib/IMG_0003.JPG'', ''/lib/IMG_0001.THM''])"

definition row_A :: imported_asset where
  "row_A = \<lparr>icloud_uuid = ''A'', immich_id = Some ''asset-1'', filename = ''IMG_0001.HEIC'',
             file_size = 2147483648, media_type = ''photo'', imported_at = sample_date\<rparr>"

text \<open>
  A world for it: \<open>photo.export\<close> copies into staging, the iCloud download times out and
  leaves a partial file, the destination answers 200 (content already present), and
  every file can be deleted.
\<close>

definition staged :: "string \<Rightarrow> sfile" where
  "staged nm = \<lparr>spath = ''/staging/'' @ nm, is_file = True, st_size = 10,
                 st_birthtime = 1615298707, st_mtime = 1615298707\<rparr>"

definition sample_env :: env where
  "sample_env =
     \<lparr>path_exists = on_disk,
      photo_export = (\<lambda>ph files. (ExportReturned [''/staging/'' @ uuid ph], files @ [staged (uuid ph)])),
      run_cli = (\<lambda>u files. (CliTimeout, files @ [staged (u @ ''.part'')])),
      open_error = (\<lambda>fp. None),
      post = (\<lambda>req. PostResponse 200 ''{}'' (JsonDict (Some ''asset-1'') None)),
      unlink_error = (\<lambda>fp. None),
      fromtimestamp = (\<lambda>t. sample_date),
      now = sample_date\<rparr>"

definition empty_state :: state where
  "empty_state = \<lparr>staging_dir = [], tracker_db = [], events = []\<rparr>"

definition sample_args :: run_args where
  "sample_args = \<lparr>arg_dry_run = False, batch_size_bytes = 5368709120, arg_max_batches = 0,
                   arg_local_only = False, arg_max_items = 0\<rparr>"

section \<open>Facts about the classifier\<close>

lemma lower_char_dot: "lower_char c = CHR ''.'' \<longleftrightarrow> c = CHR ''.''"
  by (simp add: lower_char_def split: option.splits if_splits)


lemma length_lower: "length (lower s) = length s"
  by (simp add: lower_def)

lemma split_last_dot:
  assumes "CHR ''.'' \<in> set s"
  shows "\<exists>pre. s = pre @ CHR ''.'' # rsplit_last s"
proof -
  let ?P = "\<lambda>c. c \<noteq> CHR ''.''"
  from assms have "dropWhile ?P (rev s) \<noteq> []" by (simp add: dropWhile_eq_Nil_conv)
  then obtain y ys where d: "dropWhile ?P (rev s) = y # ys"
    by (cases "dropWhile ?P (rev s)") auto
  then have y: "y = CHR ''.''" using hd_dropWhile[of ?P "rev s"] by auto
  have "rev (rev s) = rev (takeWhile ?P (rev s) @ dropWhile ?P (rev s))" by simp
  also have "\<dots> = rev ys @ CHR ''.'' # rev (takeWhile ?P (rev s))"
    unfolding d y by simp
  finally have "s = rev ys @ CHR ''.'' # rsplit_last s" by (simp add: rsplit_last_def)
  then show ?thesis by blast
qed

lemma rsplit_last_append:
  assumes "CHR ''.'' \<notin> set e"
  shows "rsplit_last (pre @ CHR ''.'' # e) = e"
proof -
  let ?P = "\<lambda>c. c \<noteq> CHR ''.''"
  have "takeWhile ?P (rev e @ CHR ''.'' # rev pre) = rev e @ takeWhile ?P (CHR ''.'' # rev pre)"
    using assms by (intro takeWhile_append2) auto
  then show ?thesis by (simp add: rsplit_last_def)
qed

lemma skip_iff_junk: "should_skip_file f = ends_with_junk_extension f"
proof
  assume s: "should_skip_file f"
  then have dot: "CHR ''.'' \<in> set f" and e: "lower (rsplit_last f) \<in> {''thm'', ''scr'', ''lrf''}"
    by (auto simp: should_skip_file_def get_extension_def SKIP_EXTENSIONS_def split: if_splits)
  from split_last_dot[OF dot] obtain pre where f: "f = pre @ CHR ''.'' # rsplit_last f" by blast
  from e have l3: "length (rsplit_last f) = 3" using length_lower[of "rsplit_last f"] by auto
  have "length f = length pre + 4" using l3 by (subst f) simp
  then have "drop (length f - 4) f = CHR ''.'' # rsplit_last f" by (subst (2) f) simp
  then have "lower (drop (length f - 4) f) = CHR ''.'' # lower (rsplit_last f)"
    by (simp add: lower_def lower_char_dot)
  with e \<open>length f = length pre + 4\<close> show "ends_with_junk_extension f"
    by (auto simp: ends_with_junk_extension_def)
next
  assume j: "ends_with_junk_extension f"
  then have len: "4 \<le> length f"
    and e: "lower (drop (length f - 4) f) \<in> {''.thm'', ''.scr'', ''.lrf''}"
    by (auto simp: ends_with_junk_extension_def)
  define pre where "pre = take (length f - 4) f"
  define suf where "suf = drop (length f - 4) f"
  have f: "f = pre @ suf" by (simp add: pre_def suf_def)
  have "length suf = 4" using len by (simp add: suf_def)
  then obtain a b c d where suf: "suf = [a, b, c, d]"
    by (cases suf; simp; cases "tl suf"; simp; cases "tl (tl suf)"; simp; cases "tl (tl (tl suf))"; auto)
  from e have e': "[lower_char a, lower_char b, lower_char c, lower_char d] \<in> {''.thm'', ''.scr'', ''.lrf''}"
    by (simp add: suf_def[symmetric] suf lower_def)
  then have a: "a = CHR ''.''" using lower_char_dot by auto
  from e' have nd: "CHR ''.'' \<notin> set [b, c, d]"
    using lower_char_dot[of b] lower_char_dot[of c] lower_char_dot[of d] by auto
  have r: "rsplit_last f = [b, c, d]"
    unfolding f suf a using rsplit_last_append[OF nd, of pre] by simp
  have "CHR ''.'' \<in> set f" by (simp add: f suf a)
  with r e' a show "should_skip_file f"
    by (auto simp: should_skip_file_def get_extension_def SKIP_EXTENSIONS_def lower_def)
qed

section \<open>Facts about the planner\<close>

lemma plan_loop_eq:
  "plan_loop ex imp lo ps ls cs =
     (ls @ filter (\<lambda>p. uuid p \<notin> imp \<and> \<not> is_junk p \<and> is_local ex p) ps,
      cs @ filter (\<lambda>p. uuid p \<notin> imp \<and> \<not> is_junk p \<and> \<not> is_local ex p \<and> \<not> lo) ps)"
proof (cases lo)
  case True
  then show ?thesis by (induction ps arbitrary: ls cs) simp_all
next
  case False
  then show ?thesis by (induction ps arbitrary: ls cs) simp_all
qed

lemma get_photos_to_import_eq:
  "get_photos_to_import ex all imp lo =
     filter (\<lambda>p. uuid p \<notin> imp \<and> \<not> is_junk p \<and> is_local ex p) all @
     filter (\<lambda>p. uuid p \<notin> imp \<and> \<not> is_junk p \<and> \<not> is_local ex p \<and> \<not> lo) all"
  by (simp add: get_photos_to_import_def plan_loop_eq)

lemma local_before_remote:
  assumes "r = ls @ cs" and "\<forall>p \<in> set ls. P p" and "\<forall>p \<in> set cs. \<not> P p"
    and "i < length r" and "j < length r" and "P (r ! i)" and "\<not> P (r ! j)"
  shows "i < j"
proof -
  have i: "i < length ls"
  proof (rule ccontr)
    assume "\<not> i < length ls"
    then have "r ! i = cs ! (i - length ls)" and "i - length ls < length cs"
      using assms(1,4) by (auto simp: nth_append)
    then have "r ! i \<in> set cs" by simp
    with assms(3,6) show False by blast
  qed
  have j: "\<not> j < length ls"
  proof
    assume "j < length ls"
    then have "r ! j \<in> set ls" using assms(1) by (simp add: nth_append)
    with assms(2,7) show False by blast
  qed
  from i j show ?thesis by simp
qed

lemma junk_J: "is_junk photo_J"
  by (simp add: is_junk_def photo_J_def should_skip_file_def get_extension_def rsplit_last_def
      lower_def lower_char_def SKIP_EXTENSIONS_def)

lemma not_junk_A: "\<not> is_junk photo_A"
  by (simp add: is_junk_def photo_A_def should_skip_file_def get_extension_def rsplit_last_def
      lower_def lower_char_def SKIP_EXTENSIONS_def)

lemma not_junk_B: "\<not> is_junk photo_B"
  by (simp add: is_junk_def photo_B_def should_skip_file_def get_extension_def rsplit_last_def
      lower_def lower_char_def SKIP_EXTENSIONS_def)

lemma not_junk_C: "\<not> is_junk photo_C"
  by (simp add: is_junk_def photo_C_def should_skip_file_def get_extension_def rsplit_last_def
      lower_def lower_char_def SKIP_EXTENSIONS_def)

lemma local_sample:
  "is_local on_disk photo_A" "\<not> is_local on_disk photo_B" "is_local on_disk photo_C"
  by (simp_all add: is_local_def on_disk_def photo_A_def photo_B_def photo_C_def)

lemma uuid_sample: "uuid photo_A = ''A''" "uuid photo_B = ''B''" "uuid photo_C = ''C''"
  "uuid photo_J = ''J''"
  by (simp_all add: photo_A_def photo_B_def photo_C_def photo_J_def)

lemma plan_sample:
  "get_photos_to_import on_disk [photo_B, photo_J, photo_A, photo_C] {''C''} False
     = [photo_A, photo_B]"
  by (simp add: get_photos_to_import_def junk_J not_junk_A not_junk_B not_junk_C local_sample
      uuid_sample)

lemma plan_sample_local:
  "get_photos_to_import on_disk [photo_B, photo_J, photo_A, photo_C] {''C''} True = [photo_A]"
  by (simp add: get_photos_to_import_def junk_J not_junk_A not_junk_B not_junk_C local_sample
      uuid_sample)

section \<open>Facts about batches\<close>

lemma bb_count:
  "0 < mi \<Longrightarrow> int (length batch) \<le> mi \<Longrightarrow> int (length (build_batch_loop ps mb mi batch bs)) \<le> mi"
  by (induction ps arbitrary: batch bs) (auto simp: Let_def)

lemma bb_negative:
  "mi < 0 \<Longrightarrow> build_batch_loop ps mb mi batch bs = batch"
  by (cases ps) auto

lemma bb_budget:
  "batch \<noteq> [] \<Longrightarrow> bs = sum_list (map declared_size batch) \<Longrightarrow>
     build_batch_loop ps mb mi batch bs = batch \<or>
     sum_list (map declared_size (build_batch_loop ps mb mi batch bs)) \<le> mb"
proof (induction ps arbitrary: batch bs)
  case Nil
  then show ?case by simp
next
  case (Cons p ps)
  show ?case
  proof (cases "build_batch_loop (p # ps) mb mi batch bs = batch")
    case True
    then show ?thesis by simp
  next
    case False
    then have step: "build_batch_loop (p # ps) mb mi batch bs
        = build_batch_loop ps mb mi (batch @ [p]) (bs + declared_size p)"
      and fits: "bs + declared_size p \<le> mb"
      using Cons.prems(1) by (auto simp add: Let_def split: if_splits)
    have "build_batch_loop ps mb mi (batch @ [p]) (bs + declared_size p) = batch @ [p] \<or>
      sum_list (map declared_size (build_batch_loop ps mb mi (batch @ [p]) (bs + declared_size p))) \<le> mb"
      using Cons.prems(2) by (intro Cons.IH) auto
    with step fits Cons.prems(2) show ?thesis by auto
  qed
qed

lemma build_batch_budget:
  "build_batch photos mb mi = [] \<or>
   sum_list (map declared_size (build_batch photos mb mi)) \<le> mb \<or>
   (\<exists>p rest. photos = p # rest \<and> build_batch photos mb mi = [p] \<and> mb < declared_size p)"
proof (cases photos)
  case Nil
  then show ?thesis by (simp add: build_batch_def)
next
  case (Cons p rest)
  show ?thesis
  proof (cases "mi \<noteq> 0 \<and> mi \<le> 0")
    case True
    then show ?thesis by (simp add: build_batch_def Cons)
  next
    case False
    then have step: "build_batch photos mb mi = build_batch_loop rest mb mi [p] (declared_size p)"
      by (auto simp add: build_batch_def Cons Let_def)
    from bb_budget[of "[p]" "declared_size p" rest mb mi]
    have "build_batch_loop rest mb mi [p] (declared_size p) = [p] \<or>
        sum_list (map declared_size (build_batch_loop rest mb mi [p] (declared_size p))) \<le> mb"
      by simp
    then show ?thesis
    proof
      assume one: "build_batch_loop rest mb mi [p] (declared_size p) = [p]"
      show ?thesis
      proof (cases "declared_size p \<le> mb")
        case True
        with one step show ?thesis by simp
      next
        case False
        with one step Cons show ?thesis by simp
      qed
    next
      assume "sum_list (map declared_size (build_batch_loop rest mb mi [p] (declared_size p))) \<le> mb"
      with step show ?thesis by simp
    qed
  qed
qed

lemma build_batch_count:
  "mi \<noteq> 0 \<Longrightarrow> int (length (build_batch photos mb mi)) \<le> max mi 0"
proof (cases "0 < mi")
  case True
  then have "int (length (build_batch photos mb mi)) \<le> mi"
    unfolding build_batch_def by (intro bb_count) auto
  then show ?thesis by simp
next
  case False
  assume "mi \<noteq> 0"
  with False have "mi < 0" by simp
  then show ?thesis by (simp add: build_batch_def bb_negative)
qed

lemma bb_first:
  assumes "0 \<le> mi"
  shows "\<exists>k. build_batch (p # ps) mb mi = p # take k ps"
proof -
  from assms have "build_batch_loop (p # ps) mb mi [] 0 = build_batch_loop ps mb mi [p] (declared_size p)"
    by (simp add: Let_def)
  with bb_prefix[of ps mb mi "[p]" "declared_size p"] show ?thesis by (auto simp: build_batch_def)
qed

lemma main_loop_turns:
  "main_loop env args to_import batch_num total_stats st = Inr (bn, ts, st') \<Longrightarrow>
     bn \<le> batch_num + int (length to_import) + 1"
proof (induction env args to_import batch_num total_stats st rule: main_loop.induct)
  case (1 env args to_import batch_num total_stats st)
  let ?batch = "build_batch to_import (batch_size_bytes args) (arg_max_items args)"
  let ?rest = "filter (\<lambda>p. uuid p \<notin> set (map uuid ?batch)) to_import"
  show ?case
  proof (cases "to_import = [] \<or> (arg_max_batches args \<noteq> 0 \<and> batch_num + 1 > arg_max_batches args)
                 \<or> ?batch = []")
    case True
    with "1.prems" show ?thesis
      by (subst (asm) main_loop.simps) (auto simp: Let_def split: if_splits)
  next
    case False
    then have sh: "length ?rest < length to_import"
      by (intro remove_batch_shrinks build_batch_subset) simp
    from False "1.prems" obtain bs s1 where
      pb: "process_batch env ?batch (arg_dry_run args) st = Inr (bs, s1)"
      and rec: "main_loop env args ?rest (batch_num + 1) (add_stats total_stats bs)
            (if \<not> arg_dry_run args then s1\<lparr>staging_dir := sweep env (staging_dir s1)\<rparr> else s1)
          = Inr (bn, ts, st')"
      by (subst (asm) main_loop.simps) (auto simp: Let_def split: if_splits sum.splits)
    from False have "bn \<le> (batch_num + 1) + int (length ?rest) + 1"
      by (intro "1.IH"[OF _ _ refl _ pb refl rec]) auto
    with sh show ?thesis by simp
  qed
qed

section \<open>The caps of a batch\<close>

text \<open>
  C1, as the code has it. A batch holds at most \<open>max_items\<close> items when \<open>max_items\<close> is
  positive and is empty when \<open>max_items\<close> is negative (so at most \<open>max max_items 0\<close> items
  whenever \<open>max_items\<close> is not zero). The batch is empty, or the sum of the declared sizes
  of its items is at most \<open>max_bytes\<close>, or it is the first item of the worklist alone, with
  a declared size above \<open>max_bytes\<close>.
\<close>

theorem build_batch_caps:
  "(max_items \<noteq> 0 \<longrightarrow> int (length (build_batch photos max_bytes max_items)) \<le> max max_items 0) \<and>
   (build_batch photos max_bytes max_items = [] \<or>
    sum_list (map declared_size (build_batch photos max_bytes max_items)) \<le> max_bytes \<or>
    (\<exists>p rest. photos = p # rest \<and> build_batch photos max_bytes max_items = [p] \<and>
       max_bytes < declared_size p))"
  using build_batch_count[of max_items photos max_bytes]
    build_batch_budget[of photos max_bytes max_items] by blast

text \<open>The theorem at the scenario's worklist, with a cap of one item and a 5 GiB budget.\<close>

theorem build_batch_caps_witness:
  "(1::int) \<noteq> 0 \<and> int (length (build_batch [photo_A, photo_B] 5368709120 1)) \<le> max 1 0 \<and>
   sum_list (map declared_size (build_batch [photo_A, photo_B] 5368709120 1)) \<le> 5368709120"
  using build_batch_caps[of 1 "[photo_A, photo_B]" 5368709120]
  by (simp add: build_batch_def declared_size_def photo_A_def photo_B_def Let_def)

text \<open>
  C1 as it is written fails for a negative \<open>max_items\<close> and a negative \<open>max_bytes\<close>: the
  batch is empty, which is more than \<open>-1\<close> items and more than \<open>-1\<close> bytes, and it is not
  a single item.
\<close>

theorem build_batch_caps_counterexample:
  "(- 1 :: int) \<noteq> 0 \<and>
   \<not> int (length (build_batch [photo_A] (- 1) (- 1))) \<le> - 1 \<and>
   \<not> sum_list (map declared_size (build_batch [photo_A] (- 1) (- 1))) \<le> - 1 \<and>
   length (build_batch [photo_A] (- 1) (- 1)) \<noteq> 1"
  by (simp add: build_batch_def)

section \<open>What planning leaves out\<close>

text \<open>
  C2. Whatever the Ledger holds, no candidate of the worklist has an identifier in the
  migrated set, and none has a filename ending, whatever the case of its letters, in
  \<open>.thm\<close>, \<open>.scr\<close> or \<open>.lrf\<close>.
\<close>

theorem plan_excludes_migrated_and_junk:
  "\<forall>p \<in> set (get_photos_to_import ex all_photos imported_uuids local_only).
     uuid p \<notin> imported_uuids \<and>
     (\<forall>f. original_filename p = Some f \<longrightarrow> \<not> ends_with_junk_extension f)"
proof
  fix p
  assume "p \<in> set (get_photos_to_import ex all_photos imported_uuids local_only)"
  then have u: "uuid p \<notin> imported_uuids" and j: "\<not> is_junk p"
    by (auto simp: get_photos_to_import_eq)
  have "\<not> ends_with_junk_extension f" if f: "original_filename p = Some f" for f
  proof (cases "f = []")
    case True
    then show ?thesis by (simp add: ends_with_junk_extension_def)
  next
    case False
    with j f have "\<not> should_skip_file f" by (simp add: is_junk_def)
    then show ?thesis by (simp add: skip_iff_junk)
  qed
  with u show "uuid p \<notin> imported_uuids \<and>
     (\<forall>f. original_filename p = Some f \<longrightarrow> \<not> ends_with_junk_extension f)" by blast
qed

theorem plan_excludes_migrated_and_junk_witness:
  "photo_A \<in> set (get_photos_to_import on_disk [photo_B, photo_J, photo_A, photo_C] {''C''} False) \<and>
   uuid photo_A \<notin> {''C''} \<and> original_filename photo_A = Some ''IMG_0001.HEIC'' \<and>
   \<not> ends_with_junk_extension ''IMG_0001.HEIC''"
proof -
  have m: "photo_A \<in> set (get_photos_to_import on_disk [photo_B, photo_J, photo_A, photo_C] {''C''} False)"
    by (simp add: plan_sample)
  have f: "original_filename photo_A = Some ''IMG_0001.HEIC''" by (simp add: photo_A_def)
  from plan_excludes_migrated_and_junk[of on_disk "[photo_B, photo_J, photo_A, photo_C]" "{''C''}" False] m f
  show ?thesis by blast
qed

section \<open>The order of the worklist\<close>

text \<open>
  C3. In the worklist every locally available candidate comes before every remote-only
  candidate, whatever the order of the catalog; with \<open>local_only\<close> the worklist holds
  locally available candidates only.
\<close>

theorem plan_local_first:
  "(\<forall>i j. i < length (get_photos_to_import ex all_photos imported_uuids local_only) \<and>
          j < length (get_photos_to_import ex all_photos imported_uuids local_only) \<and>
          is_local ex (get_photos_to_import ex all_photos imported_uuids local_only ! i) \<and>
          \<not> is_local ex (get_photos_to_import ex all_photos imported_uuids local_only ! j)
          \<longrightarrow> i < j) \<and>
   (local_only \<longrightarrow>
      (\<forall>p \<in> set (get_photos_to_import ex all_photos imported_uuids local_only). is_local ex p))"
proof (intro conjI allI impI)
  fix i j
  let ?r = "get_photos_to_import ex all_photos imported_uuids local_only"
  assume h: "i < length ?r \<and> j < length ?r \<and> is_local ex (?r ! i) \<and> \<not> is_local ex (?r ! j)"
  show "i < j"
    by (rule local_before_remote[where P = "is_local ex", OF get_photos_to_import_eq]) (use h in auto)
next
  assume local_only
  then show "\<forall>p \<in> set (get_photos_to_import ex all_photos imported_uuids local_only). is_local ex p"
    by (auto simp: get_photos_to_import_eq)
qed

theorem plan_local_first_witness:
  "(0::nat) < length (get_photos_to_import on_disk [photo_B, photo_J, photo_A, photo_C] {''C''} False) \<and>
   (1::nat) < length (get_photos_to_import on_disk [photo_B, photo_J, photo_A, photo_C] {''C''} False) \<and>
   is_local on_disk (get_photos_to_import on_disk [photo_B, photo_J, photo_A, photo_C] {''C''} False ! 0) \<and>
   \<not> is_local on_disk (get_photos_to_import on_disk [photo_B, photo_J, photo_A, photo_C] {''C''} False ! 1) \<and>
   (0::nat) < 1 \<and>
   photo_A \<in> set (get_photos_to_import on_disk [photo_B, photo_J, photo_A, photo_C] {''C''} True) \<and>
   is_local on_disk photo_A"
proof -
  let ?all = "[photo_B, photo_J, photo_A, photo_C]"
  have h: "0 < length (get_photos_to_import on_disk ?all {''C''} False) \<and>
           1 < length (get_photos_to_import on_disk ?all {''C''} False) \<and>
           is_local on_disk (get_photos_to_import on_disk ?all {''C''} False ! 0) \<and>
           \<not> is_local on_disk (get_photos_to_import on_disk ?all {''C''} False ! 1)"
    by (simp add: plan_sample local_sample)
  have m: "photo_A \<in> set (get_photos_to_import on_disk ?all {''C''} True)"
    by (simp add: plan_sample_local)
  from plan_local_first[of on_disk ?all "{''C''}" False] h have "(0::nat) < 1" by blast
  moreover from plan_local_first[of on_disk ?all "{''C''}" True] m have "is_local on_disk photo_A"
    by blast
  ultimately show ?thesis using h m by blast
qed

section \<open>The Ledger is an upsert\<close>

text \<open>
  C9. After \<open>mark_imported\<close> for an identifier, \<open>is_imported\<close> holds for it and it is among
  \<open>get_imported_uuids\<close>; the table then has exactly one row for it, the one just written,
  so a second \<open>mark_imported\<close> replaces the first; identifiers stay unique, and the rows
  of other identifiers are untouched.
\<close>

theorem mark_imported_upsert:
  "is_imported (mark_imported rows u iid fname fsize mtype ts) u \<and>
   u \<in> get_imported_uuids (mark_imported rows u iid fname fsize mtype ts) \<and>
   filter (\<lambda>r. icloud_uuid r = u) (mark_imported rows u iid fname fsize mtype ts)
     = [\<lparr>icloud_uuid = u, immich_id = iid, filename = fname, file_size = fsize,
         media_type = mtype, imported_at = ts\<rparr>] \<and>
   mark_imported (mark_imported rows u iid0 fname0 fsize0 mtype0 ts0) u iid fname fsize mtype ts
     = mark_imported rows u iid fname fsize mtype ts \<and>
   (distinct (map icloud_uuid rows) \<longrightarrow>
      distinct (map icloud_uuid (mark_imported rows u iid fname fsize mtype ts))) \<and>
   (\<forall>v. v \<noteq> u \<longrightarrow>
      filter (\<lambda>r. icloud_uuid r = v) (mark_imported rows u iid fname fsize mtype ts)
        = filter (\<lambda>r. icloud_uuid r = v) rows)"
proof -
  let ?new = "\<lparr>icloud_uuid = u, immich_id = iid, filename = fname, file_size = fsize,
         media_type = mtype, imported_at = ts\<rparr>"
  have none: "filter (\<lambda>r. icloud_uuid r = u) (filter (\<lambda>r. icloud_uuid r \<noteq> u) rows) = []"
    by (induction rows) auto
  have one: "filter (\<lambda>r. icloud_uuid r = u) (mark_imported rows u iid fname fsize mtype ts) = [?new]"
    by (simp add: mark_imported_def none)
  have twice: "mark_imported (mark_imported rows u iid0 fname0 fsize0 mtype0 ts0) u iid fname fsize mtype ts
     = mark_imported rows u iid fname fsize mtype ts"
    by (simp add: mark_imported_def)
  have dist: "distinct (map icloud_uuid (mark_imported rows u iid fname fsize mtype ts))"
    if "distinct (map icloud_uuid rows)"
    using that by (auto simp: mark_imported_def distinct_map_filter)
  have other: "filter (\<lambda>r. icloud_uuid r = v) (mark_imported rows u iid fname fsize mtype ts)
        = filter (\<lambda>r. icloud_uuid r = v) rows" if "v \<noteq> u" for v
    using that by (auto simp: mark_imported_def intro: filter_cong)
  from one have "is_imported (mark_imported rows u iid fname fsize mtype ts) u"
    by (simp add: is_imported_def)
  moreover have "u \<in> get_imported_uuids (mark_imported rows u iid fname fsize mtype ts)"
    by (simp add: get_imported_uuids_def mark_imported_def)
  ultimately show ?thesis using one twice dist other by blast
qed

text \<open>The theorem at a Ledger that holds \<open>A\<close>, recording \<open>B\<close>.\<close>

theorem mark_imported_upsert_witness:
  "distinct (map icloud_uuid [row_A]) \<and>
   distinct (map icloud_uuid
     (mark_imported [row_A] ''B'' None ''MOV_0002.MOV'' 7 ''video'' sample_date)) \<and>
   ''A'' \<noteq> ''B'' \<and>
   filter (\<lambda>r. icloud_uuid r = ''A'')
     (mark_imported [row_A] ''B'' None ''MOV_0002.MOV'' 7 ''video'' sample_date) =
   filter (\<lambda>r. icloud_uuid r = ''A'') [row_A] \<and>
   is_imported (mark_imported [row_A] ''B'' None ''MOV_0002.MOV'' 7 ''video'' sample_date) ''B''"
proof -
  note t = mark_imported_upsert[of "[row_A]" "''B''" None "''MOV_0002.MOV''" 7 "''video''"
      sample_date]
  have d: "distinct (map icloud_uuid [row_A])" by simp
  have n: "''A'' \<noteq> ''B''" by simp
  from t have i: "is_imported
      (mark_imported [row_A] ''B'' None ''MOV_0002.MOV'' 7 ''video'' sample_date) ''B''"
    by (rule conjunct1)
  from t[THEN conjunct2, THEN conjunct2, THEN conjunct2, THEN conjunct2, THEN conjunct1] d
  have d': "distinct (map icloud_uuid
     (mark_imported [row_A] ''B'' None ''MOV_0002.MOV'' 7 ''video'' sample_date))"
    by (rule mp)
  from t[THEN conjunct2, THEN conjunct2, THEN conjunct2, THEN conjunct2, THEN conjunct2,
      THEN spec, of "''A''"] n
  have o: "filter (\<lambda>r. icloud_uuid r = ''A'')
     (mark_imported [row_A] ''B'' None ''MOV_0002.MOV'' 7 ''video'' sample_date) =
   filter (\<lambda>r. icloud_uuid r = ''A'') [row_A]"
    by (rule mp)
  from d d' n o i show ?thesis by (intro conjI)
qed

end
